theory Spec2Isabelle
  imports Main "HOL-Library.Sublist"
begin

section \<open>The webhook service of \<open>main.py\<close>\<close>

text \<open>
  The service keeps one module-level list, \<open>received_transactions\<close>, and six request
  handlers that read it or append to it. The handlers also read the wall clock
  (\<open>datetime.now()\<close>). Both are made explicit here: the state of the process is a record
  holding the list and the number of clock readings made so far, and the clock itself is
  a parameter giving the n-th reading. Every handler takes a state and returns its JSON
  response together with the state it leaves behind. Writing to the logger is left out.
\<close>

subsection \<open>Python values\<close>

datatype exception = IndexError

text \<open>\<open>len(xs)\<close>, a Python integer.\<close>

definition len :: "'a list \<Rightarrow> int" where
  "len xs = int (length xs)"

text \<open>
  \<open>xs[i]\<close>: an index from \<open>0\<close> to \<open>len(xs) - 1\<close> counts from the front, one from
  \<open>-len(xs)\<close> to \<open>-1\<close> from the back, and any other index raises \<open>IndexError\<close>.
\<close>

definition getitem :: "'a list \<Rightarrow> int \<Rightarrow> exception + 'a" where
  "getitem xs i =
     (if 0 \<le> i \<and> i < len xs then Inr (xs ! nat i)
      else if i < 0 \<and> - len xs \<le> i then Inr (xs ! nat (len xs + i))
      else Inl IndexError)"

text \<open>
  \<open>xs[i:]\<close>: a negative start counts from the back; a start before the front gives the
  whole list and a start behind the back the empty one.
\<close>

definition slice_from :: "'a list \<Rightarrow> int \<Rightarrow> 'a list" where
  "slice_from xs i = (if i < 0 then drop (nat (len xs + i)) xs else drop (nat i) xs)"

text \<open>Truth value of an \<open>Optional[str]\<close>: \<open>None\<close> and the empty string are false.\<close>

definition truthy :: "string option \<Rightarrow> bool" where
  "truthy v = (case v of None \<Rightarrow> False | Some s \<Rightarrow> s \<noteq> [])"

text \<open>
  \<open>list(set(xs))\<close>: each element once. Python fixes no enumeration order for a set; the
  order chosen here is one of the possible ones, and no theorem below depends on it.
\<close>

definition list_set :: "'a list \<Rightarrow> 'a list" where
  "list_set xs = remdups xs"

subsection \<open>Decimal rendering and the clock\<close>

definition digit_char :: "nat \<Rightarrow> char" where
  "digit_char d = ''0123456789'' ! d"

fun dec :: "nat \<Rightarrow> string" where
  "dec n = (if n < 10 then [digit_char n] else dec (n div 10) @ [digit_char (n mod 10)])"

declare dec.simps [simp del]

definition str_int :: "int \<Rightarrow> string" where
  "str_int i = (if i < 0 then CHR ''-'' # dec (nat (- i)) else dec (nat i))"

text \<open>\<open>%0wd\<close>: at least \<open>w\<close> characters, filled with zeros on the left.\<close>

definition zfill :: "nat \<Rightarrow> string \<Rightarrow> string" where
  "zfill w s = replicate (w - length s) CHR ''0'' @ s"

record datetime =
  year :: nat
  month :: nat
  day :: nat
  hour :: nat
  minute :: nat
  second :: nat
  microsecond :: nat

text \<open>
  The values a reading of the wall clock can have: the ranges of Python's \<open>datetime\<close>,
  with the year at four digits (below 1000 the output of \<open>%Y\<close> depends on the platform's
  C library).
\<close>

definition clock_reading :: "datetime \<Rightarrow> bool" where
  "clock_reading d =
     (1000 \<le> year d \<and> year d \<le> 9999 \<and> 1 \<le> month d \<and> month d \<le> 12 \<and>
      1 \<le> day d \<and> day d \<le> 31 \<and> hour d \<le> 23 \<and> minute d \<le> 59 \<and> second d \<le> 59 \<and>
      microsecond d \<le> 999999)"

text \<open>\<open>d.isoformat()\<close> of a naive datetime: the fraction is printed unless it is zero.\<close>

definition isoformat :: "datetime \<Rightarrow> string" where
  "isoformat d =
     zfill 4 (dec (year d)) @ ''-'' @ zfill 2 (dec (month d)) @ ''-'' @ zfill 2 (dec (day d))
     @ ''T'' @ zfill 2 (dec (hour d)) @ '':'' @ zfill 2 (dec (minute d)) @ '':''
     @ zfill 2 (dec (second d))
     @ (if microsecond d = 0 then [] else ''.'' @ zfill 6 (dec (microsecond d)))"

text \<open>The directives of \<open>strftime\<close> that the service uses; any other one is kept as written.\<close>

definition directive :: "char \<Rightarrow> datetime \<Rightarrow> string" where
  "directive c d =
     (if c = CHR ''Y'' then zfill 4 (dec (year d))
      else if c = CHR ''m'' then zfill 2 (dec (month d))
      else if c = CHR ''d'' then zfill 2 (dec (day d))
      else if c = CHR ''H'' then zfill 2 (dec (hour d))
      else if c = CHR ''M'' then zfill 2 (dec (minute d))
      else if c = CHR ''S'' then zfill 2 (dec (second d))
      else [CHR ''%'', c])"

fun strftime :: "datetime \<Rightarrow> string \<Rightarrow> string" where
  "strftime d [] = []"
| "strftime d [c] = [c]"
| "strftime d (c # c' # cs) =
     (if c = CHR ''%'' then directive c' d @ strftime d cs else c # strftime d (c' # cs))"

declare strftime.simps [simp del]

definition is_digit :: "char \<Rightarrow> bool" where
  "is_digit c = (c \<in> set ''0123456789'')"

text \<open>The shape \<open>YYYYMMDD_HHMMSS\<close>: eight digits, an underscore, six digits.\<close>

definition is_batch_id_format :: "string \<Rightarrow> bool" where
  "is_batch_id_format s =
     (length s = 15 \<and> list_all is_digit (take 8 s) \<and> s ! 8 = CHR ''_'' \<and>
      list_all is_digit (drop 9 s))"

subsection \<open>Records and state\<close>

text \<open>The pydantic model \<open>UserTransaction\<close>: five optional fields.\<close>

record UserTransaction =
  authorizer_usrnbr :: "int option"
  creat_usrnbr :: "int option"
  creat_time :: "string option"
  data :: "string option"
  usrname :: "string option"

text \<open>
  A stored \<open>transaction_dict\<close>: the five keys of \<open>transaction.dict()\<close> and the keys the
  handler adds. The key \<open>batch_id\<close> exists only on records of a batch (\<open>None\<close>: no key).
\<close>

record transaction_dict = UserTransaction +
  received_at :: string
  poc_id :: int
  batch_id :: "string option"

definition dict :: "UserTransaction \<Rightarrow> string \<Rightarrow> int \<Rightarrow> string option \<Rightarrow> transaction_dict" where
  "dict transaction at n b =
     \<lparr>authorizer_usrnbr = authorizer_usrnbr transaction,
      creat_usrnbr = creat_usrnbr transaction,
      creat_time = creat_time transaction,
      data = data transaction,
      usrname = usrname transaction,
      received_at = at, poc_id = n, batch_id = b\<rparr>"

text \<open>The five fields of a stored record, as the request carried them.\<close>

definition payload :: "transaction_dict \<Rightarrow> UserTransaction" where
  "payload t =
     \<lparr>authorizer_usrnbr = authorizer_usrnbr t, creat_usrnbr = creat_usrnbr t,
      creat_time = creat_time t, data = data t, usrname = usrname t\<rparr>"

record server_state =
  received_transactions :: "transaction_dict list"
  ticks :: nat

definition initial_state :: server_state where
  "initial_state = \<lparr>received_transactions = [], ticks = 0\<rparr>"

type_synonym clock = "nat \<Rightarrow> datetime"

definition datetime_now :: "clock \<Rightarrow> server_state \<Rightarrow> datetime \<times> server_state" where
  "datetime_now clk s = (clk (ticks s), s\<lparr>ticks := Suc (ticks s)\<rparr>)"

datatype http_error = RequestValidationError "string list" | HTTPException int string

fun status_code :: "http_error \<Rightarrow> int" where
  "status_code (RequestValidationError _) = 422"
| "status_code (HTTPException c _) = c"

subsection \<open>Responses\<close>

record service_info =
  source :: string
  topic :: string
  purpose :: string

record root_response =
  message :: string
  status :: string
  timestamp :: string
  total_received :: int
  service_info :: service_info

record ingest_response =
  status :: string
  message :: string
  poc_id :: int
  user :: "string option"
  received_at :: string

record list_response =
  total_count :: int
  last_10_transactions :: "transaction_dict list"
  last_updated :: string
  poc_status :: string

record batch_response =
  status :: string
  message :: string
  batch_id :: string
  total_received :: int

record health_response =
  status :: string
  timestamp :: string
  service :: string
  total_transactions :: int

record waiting_response =
  message :: string
  total_count :: int
  status :: string

record statistics_response =
  total_transactions :: int
  unique_users :: int
  user_list :: "string list"
  first_transaction :: "string option"
  last_transaction :: "string option"
  poc_status :: string

datatype stats_response = Waiting waiting_response | Statistics statistics_response

subsection \<open>The handlers\<close>

text \<open>\<open>GET /\<close>\<close>

definition root :: "clock \<Rightarrow> server_state \<Rightarrow> root_response \<times> server_state" where
  "root clk s =
     (let (now, s1) = datetime_now clk s
      in (\<lparr>root_response.message = ''Rakbank POC Kafka User Transaction Webhook Service'',
           root_response.status = ''running'',
           root_response.timestamp = isoformat now,
           root_response.total_received = len (received_transactions s1),
           root_response.service_info =
             \<lparr>source = ''Confluent Cloud Flink'', topic = ''user_trans_hst_avro'',
              purpose = ''POC webhook endpoint''\<rparr>\<rparr>, s1))"

text \<open>
  \<open>POST /webhook/user-transactions\<close>, the handler body. Nothing inside its \<open>try\<close> raises
  in this model, so the result is always the success response.
\<close>

definition receive_user_transaction ::
  "clock \<Rightarrow> UserTransaction \<Rightarrow> server_state \<Rightarrow> (http_error + ingest_response) \<times> server_state" where
  "receive_user_transaction clk transaction s =
     (let (now, s1) = datetime_now clk s;
          transaction_dict =
            dict transaction (isoformat now) (len (received_transactions s1) + 1) None;
          s2 = s1\<lparr>received_transactions := received_transactions s1 @ [transaction_dict]\<rparr>
      in (Inr \<lparr>ingest_response.status = ''success'',
               ingest_response.message = ''User transaction received successfully'',
               ingest_response.poc_id = transaction_dict.poc_id transaction_dict,
               ingest_response.user = usrname transaction,
               ingest_response.received_at = transaction_dict.received_at transaction_dict\<rparr>,
          s2))"

text \<open>\<open>GET /webhook/user-transactions\<close>\<close>

definition get_received_transactions :: "clock \<Rightarrow> server_state \<Rightarrow> list_response \<times> server_state" where
  "get_received_transactions clk s =
     (let total = len (received_transactions s);
          recent = (if received_transactions s \<noteq> [] then slice_from (received_transactions s) (- 10)
                    else []);
          (now, s1) = datetime_now clk s
      in (\<lparr>list_response.total_count = total,
           list_response.last_10_transactions = recent,
           list_response.last_updated = isoformat now,
           list_response.poc_status = ''active''\<rparr>, s1))"

text \<open>
  \<open>POST /webhook/user-transactions/batch\<close>: the loop over the request's records, carrying
  \<open>received_count\<close> and the state, then the handler.
\<close>

fun batch_loop ::
  "clock \<Rightarrow> string \<Rightarrow> UserTransaction list \<Rightarrow> int \<times> server_state \<Rightarrow> int \<times> server_state" where
  "batch_loop clk bid [] (received_count, s) = (received_count, s)"
| "batch_loop clk bid (transaction # rest) (received_count, s) =
     (let (now, s1) = datetime_now clk s;
          transaction_dict =
            dict transaction (isoformat now) (len (received_transactions s1) + 1) (Some bid);
          s2 = s1\<lparr>received_transactions := received_transactions s1 @ [transaction_dict]\<rparr>
      in batch_loop clk bid rest (received_count + 1, s2))"

definition receive_batch_transactions ::
  "clock \<Rightarrow> UserTransaction list \<Rightarrow> server_state \<Rightarrow> (http_error + batch_response) \<times> server_state" where
  "receive_batch_transactions clk transactions s =
     (let (now, s1) = datetime_now clk s;
          bid = strftime now ''%Y%m%d_%H%M%S'';
          (received_count, s2) = batch_loop clk bid transactions (0, s1)
      in (Inr \<lparr>batch_response.status = ''success'',
               batch_response.message =
                 ''Batch of '' @ str_int received_count @ '' transactions received successfully'',
               batch_response.batch_id = bid,
               batch_response.total_received = len (received_transactions s2)\<rparr>, s2))"

text \<open>\<open>GET /health\<close>\<close>

definition health_check :: "clock \<Rightarrow> server_state \<Rightarrow> health_response \<times> server_state" where
  "health_check clk s =
     (let (now, s1) = datetime_now clk s
      in (\<lparr>health_response.status = ''healthy'',
           health_response.timestamp = isoformat now,
           health_response.service = ''Rakbank POC Kafka Webhook'',
           health_response.total_transactions = len (received_transactions s1)\<rparr>, s1))"

text \<open>
  \<open>GET /poc/stats\<close>. The two index expressions are guarded by \<open>if received_transactions\<close>;
  an \<open>IndexError\<close> from them would leave the handler, which has no \<open>try\<close>.
\<close>

definition users_of :: "transaction_dict list \<Rightarrow> string list" where
  "users_of ts = map (\<lambda>t. case usrname t of None \<Rightarrow> [] | Some u \<Rightarrow> u) (filter (\<lambda>t. truthy (usrname t)) ts)"

definition guarded_received_at ::
  "transaction_dict list \<Rightarrow> int \<Rightarrow> exception + string option" where
  "guarded_received_at ts i =
     (if ts \<noteq> [] then
        (case getitem ts i of Inl e \<Rightarrow> Inl e | Inr t \<Rightarrow> Inr (Some (transaction_dict.received_at t)))
      else Inr None)"

definition poc_statistics :: "server_state \<Rightarrow> (exception + stats_response) \<times> server_state" where
  "poc_statistics s =
     (if received_transactions s = [] then
        (Inr (Waiting \<lparr>waiting_response.message = ''No transactions received yet'',
                       waiting_response.total_count = 0,
                       waiting_response.status = ''waiting_for_data''\<rparr>), s)
      else
        (let users = users_of (received_transactions s);
             unique = list_set users
         in case guarded_received_at (received_transactions s) 0 of
              Inl e \<Rightarrow> (Inl e, s)
            | Inr first_at \<Rightarrow>
               (case guarded_received_at (received_transactions s) (- 1) of
                  Inl e \<Rightarrow> (Inl e, s)
                | Inr last_at \<Rightarrow>
                   (Inr (Statistics
                      \<lparr>statistics_response.total_transactions = len (received_transactions s),
                       statistics_response.unique_users = len unique,
                       statistics_response.user_list = unique,
                       statistics_response.first_transaction = first_at,
                       statistics_response.last_transaction = last_at,
                       statistics_response.poc_status = ''collecting_data''\<rparr>), s))))"

subsection \<open>Request validation\<close>

text \<open>
  The framework parses the request body and validates it against \<open>UserTransaction\<close> before
  it calls the handler; when validation fails it answers 422 itself and the handler does
  not run. How a JSON value is coerced to \<open>int\<close> or \<open>str\<close> is the validation library's
  business and is a parameter here (\<open>None\<close>: the value cannot be coerced).
\<close>

datatype json =
  JNull | JBool bool | JInt int | JStr string | JArr "json list" | JObj "(string \<times> json) list"

text \<open>An \<open>Optional\<close> field with default \<open>None\<close>: a missing key and \<open>null\<close> both give \<open>None\<close>.\<close>

definition optional_field ::
  "(json \<Rightarrow> 'a option) \<Rightarrow> (string \<times> json) list \<Rightarrow> string \<Rightarrow> string list + 'a option" where
  "optional_field coerce members k =
     (case map_of (rev members) k of
        None \<Rightarrow> Inr None
      | Some v \<Rightarrow>
         (if v = JNull then Inr None
          else case coerce v of None \<Rightarrow> Inl [k] | Some x \<Rightarrow> Inr (Some x)))"

definition errors_of :: "string list + 'a \<Rightarrow> string list" where
  "errors_of r = (case r of Inl es \<Rightarrow> es | Inr _ \<Rightarrow> [])"

definition value_of :: "string list + 'a option \<Rightarrow> 'a option" where
  "value_of r = (case r of Inl _ \<Rightarrow> None | Inr v \<Rightarrow> v)"

definition validate ::
  "(json \<Rightarrow> int option) \<Rightarrow> (json \<Rightarrow> string option) \<Rightarrow> json \<Rightarrow> string list + UserTransaction" where
  "validate as_int as_str body =
     (case body of
        JObj members \<Rightarrow>
          (let a = optional_field as_int members ''authorizer_usrnbr'';
               c = optional_field as_int members ''creat_usrnbr'';
               t = optional_field as_str members ''creat_time'';
               d = optional_field as_str members ''data'';
               u = optional_field as_str members ''usrname'';
               errors = errors_of a @ errors_of c @ errors_of t @ errors_of d @ errors_of u
           in if errors \<noteq> [] then Inl errors
              else Inr \<lparr>authorizer_usrnbr = value_of a, creat_usrnbr = value_of c,
                        creat_time = value_of t, data = value_of d, usrname = value_of u\<rparr>)
      | _ \<Rightarrow> Inl [''body''])"

definition post_user_transaction ::
  "(json \<Rightarrow> int option) \<Rightarrow> (json \<Rightarrow> string option) \<Rightarrow> clock \<Rightarrow> json \<Rightarrow> server_state
     \<Rightarrow> (http_error + ingest_response) \<times> server_state" where
  "post_user_transaction as_int as_str clk body s =
     (case validate as_int as_str body of
        Inl errors \<Rightarrow> (Inl (RequestValidationError errors), s)
      | Inr transaction \<Rightarrow> receive_user_transaction clk transaction s)"

text \<open>Coercions that accept a JSON value of the field's own type only.\<close>

definition strict_int :: "json \<Rightarrow> int option" where
  "strict_int v = (case v of JInt i \<Rightarrow> Some i | _ \<Rightarrow> None)"

definition strict_str :: "json \<Rightarrow> string option" where
  "strict_str v = (case v of JStr x \<Rightarrow> Some x | _ \<Rightarrow> None)"

subsection \<open>Sequences of calls\<close>

text \<open>Single-ingest calls made one after the other: the responses in call order, and the final state.\<close>

fun ingest_all ::
  "clock \<Rightarrow> UserTransaction list \<Rightarrow> server_state
     \<Rightarrow> (http_error + ingest_response) list \<times> server_state" where
  "ingest_all clk [] s = ([], s)"
| "ingest_all clk (transaction # rest) s =
     (let (r, s1) = receive_user_transaction clk transaction s;
          (rs, s2) = ingest_all clk rest s1
      in (r # rs, s2))"

text \<open>A request that carries a username and nothing else.\<close>

definition named :: "string option \<Rightarrow> UserTransaction" where
  "named u = \<lparr>authorizer_usrnbr = None, creat_usrnbr = None, creat_time = None, data = None,
              usrname = u\<rparr>"

subsection \<open>Example inputs\<close>

definition example_clock :: clock where
  "example_clock n =
     \<lparr>year = 2026, month = 11, day = 4, hour = 12, minute = 0, second = n mod 60,
      microsecond = 0\<rparr>"

text \<open>The state after one single ingest into the fresh process.\<close>

definition one_stored :: server_state where
  "one_stored = snd (receive_user_transaction example_clock (named (Some ''alice'')) initial_state)"

text \<open>The state after twelve single ingests, and after five with the usernames a, b, a, none, b.\<close>

definition twelve_stored :: server_state where
  "twelve_stored = snd (ingest_all example_clock (map named (replicate 12 None)) initial_state)"

definition five_users :: server_state where
  "five_users =
     snd (ingest_all example_clock
            (map named [Some ''a'', Some ''b'', Some ''a'', None, Some ''b'']) initial_state)"

section \<open>Properties of the handlers\<close>

subsection \<open>Single ingest\<close>

lemma receive_user_transaction_eq:
  "receive_user_transaction clk t s =
     (Inr \<lparr>ingest_response.status = ''success'',
            ingest_response.message = ''User transaction received successfully'',
            ingest_response.poc_id = len (received_transactions s) + 1,
            ingest_response.user = usrname t,
            ingest_response.received_at = isoformat (clk (ticks s))\<rparr>,
      \<lparr>received_transactions =
         received_transactions s
         @ [dict t (isoformat (clk (ticks s))) (len (received_transactions s) + 1) None],
       ticks = Suc (ticks s)\<rparr>)"
  by (simp add: receive_user_transaction_def datetime_now_def dict_def)

lemma payload_dict: "payload (dict t at n b) = t"
  by (simp add: payload_def dict_def)

lemma poc_id_dict: "transaction_dict.poc_id (dict t at n b) = n"
  by (simp add: dict_def)

lemma batch_id_dict: "transaction_dict.batch_id (dict t at n b) = b"
  by (simp add: dict_def)

lemma ingest_all_Cons:
  "ingest_all clk (t # ts) s =
     (fst (receive_user_transaction clk t s)
        # fst (ingest_all clk ts (snd (receive_user_transaction clk t s))),
      snd (ingest_all clk ts (snd (receive_user_transaction clk t s))))"
  by (simp add: split_beta)

lemma upt_Suc_shift: "[0..<Suc n] = 0 # map Suc [0..<n]"
  by (simp add: upt_conv_Cons map_Suc_upt del: upt_Suc)

lemma ingest_all_store:
  "map payload (received_transactions (snd (ingest_all clk ts s)))
     = map payload (received_transactions s) @ ts"
proof (induction ts arbitrary: s)
  case Nil
  show ?case by simp
next
  case (Cons t ts)
  show ?case
    unfolding ingest_all_Cons snd_conv Cons.IH
    by (simp add: receive_user_transaction_eq payload_dict)
qed

lemma ingest_all_prefix:
  "prefix (received_transactions s) (received_transactions (snd (ingest_all clk ts s)))"
proof (induction ts arbitrary: s)
  case Nil
  show ?case by simp
next
  case (Cons t ts)
  let ?s1 = "snd (receive_user_transaction clk t s)"
  have "prefix (received_transactions s) (received_transactions ?s1)"
    by (simp add: receive_user_transaction_eq)
  moreover have "prefix (received_transactions ?s1) (received_transactions (snd (ingest_all clk ts ?s1)))"
    by (rule Cons.IH)
  ultimately show ?case
    unfolding ingest_all_Cons snd_conv by (rule prefix_order.trans)
qed

lemma ingest_all_length:
  "length (received_transactions (snd (ingest_all clk ts s)))
     = length (received_transactions s) + length ts"
  using arg_cong [OF ingest_all_store [of clk ts s], of length] by simp

lemma ingest_all_responses:
  "map (map_sum id ingest_response.poc_id) (fst (ingest_all clk ts s))
     = map (\<lambda>k. Inr (len (received_transactions s) + 1 + int k)) [0..<length ts]"
proof (induction ts arbitrary: s)
  case Nil
  show ?case by simp
next
  case (Cons t ts)
  let ?s1 = "snd (receive_user_transaction clk t s)"
  have len1: "len (received_transactions ?s1) = len (received_transactions s) + 1"
    by (simp add: receive_user_transaction_eq len_def)
  have "map (map_sum id ingest_response.poc_id) (fst (ingest_all clk (t # ts) s))
          = Inr (len (received_transactions s) + 1)
            # map (\<lambda>k. Inr (len (received_transactions ?s1) + 1 + int k)) [0..<length ts]"
    unfolding ingest_all_Cons fst_conv list.map Cons.IH
    by (simp add: receive_user_transaction_eq)
  also have "\<dots> = map (\<lambda>k. Inr (len (received_transactions s) + 1 + int k))
                     (0 # map Suc [0..<length ts])"
    by (simp add: len1 comp_def add.assoc)
  finally show ?case
    unfolding length_Cons upt_Suc_shift .
qed

lemma ingest_all_poc_ids:
  "map transaction_dict.poc_id (received_transactions (snd (ingest_all clk ts s)))
     = map transaction_dict.poc_id (received_transactions s)
       @ map (\<lambda>k. len (received_transactions s) + 1 + int k) [0..<length ts]"
proof (induction ts arbitrary: s)
  case Nil
  show ?case by simp
next
  case (Cons t ts)
  let ?s1 = "snd (receive_user_transaction clk t s)"
  have len1: "len (received_transactions ?s1) = len (received_transactions s) + 1"
    by (simp add: receive_user_transaction_eq len_def)
  have "map transaction_dict.poc_id (received_transactions (snd (ingest_all clk (t # ts) s)))
          = map transaction_dict.poc_id (received_transactions s)
            @ (len (received_transactions s) + 1)
              # map (\<lambda>k. len (received_transactions ?s1) + 1 + int k) [0..<length ts]"
    unfolding ingest_all_Cons snd_conv Cons.IH
    by (simp add: receive_user_transaction_eq poc_id_dict)
  also have "\<dots> = map transaction_dict.poc_id (received_transactions s)
                   @ map (\<lambda>k. len (received_transactions s) + 1 + int k)
                       (0 # map Suc [0..<length ts])"
    by (simp add: len1 comp_def add.assoc)
  finally show ?case
    unfolding length_Cons upt_Suc_shift .
qed

lemma one_based: "map (\<lambda>k. f (1 + int k)) [0..<n] = map (\<lambda>k. f (int k)) [1..<Suc n]"
proof -
  have "map (\<lambda>k. f (int k)) [1..<Suc n] = map (\<lambda>k. f (int k)) (map Suc [0..<n])"
    by (simp only: map_Suc_upt One_nat_def)
  then show ?thesis by (simp add: comp_def)
qed

lemma ingest_all_success:
  "map isl (fst (ingest_all clk ts s)) = replicate (length ts) False"
proof (induction ts arbitrary: s)
  case Nil
  show ?case by simp
next
  case (Cons t ts)
  show ?case
    unfolding ingest_all_Cons fst_conv list.map Cons.IH
    by (simp add: receive_user_transaction_eq)
qed

subsection \<open>The batch loop\<close>

lemma batch_loop_count: "fst (batch_loop clk bid ts (c, s)) = c + len ts"
  by (induction ts arbitrary: c s) (simp_all add: datetime_now_def len_def)

lemma batch_loop_Cons:
  "batch_loop clk bid (t # ts) (c, s) =
     batch_loop clk bid ts
       (c + 1,
        s\<lparr>ticks := Suc (ticks s),
          received_transactions :=
            received_transactions s
            @ [dict t (isoformat (clk (ticks s))) (len (received_transactions s) + 1) (Some bid)]\<rparr>)"
  by (simp add: datetime_now_def)

lemma batch_loop_prefix:
  "prefix (received_transactions s) (received_transactions (snd (batch_loop clk bid ts (c, s))))"
proof (induction ts arbitrary: c s)
  case Nil
  show ?case by simp
next
  case (Cons t ts)
  let ?d = "dict t (isoformat (clk (ticks s))) (len (received_transactions s) + 1) (Some bid)"
  let ?s2 = "s\<lparr>ticks := Suc (ticks s), received_transactions := received_transactions s @ [?d]\<rparr>"
  have step: "batch_loop clk bid (t # ts) (c, s) = batch_loop clk bid ts (c + 1, ?s2)"
    by (rule batch_loop_Cons)
  have "prefix (received_transactions s) (received_transactions ?s2)"
    by simp
  moreover have "prefix (received_transactions ?s2)
                   (received_transactions (snd (batch_loop clk bid ts (c + 1, ?s2))))"
    by (rule Cons.IH)
  ultimately show ?case
    unfolding step by (rule prefix_order.trans)
qed

lemma batch_loop_batch_ids:
  "map transaction_dict.batch_id (received_transactions (snd (batch_loop clk bid ts (c, s))))
     = map transaction_dict.batch_id (received_transactions s) @ replicate (length ts) (Some bid)"
proof (induction ts arbitrary: c s)
  case Nil
  show ?case by simp
next
  case (Cons t ts)
  let ?d = "dict t (isoformat (clk (ticks s))) (len (received_transactions s) + 1) (Some bid)"
  let ?s2 = "s\<lparr>ticks := Suc (ticks s), received_transactions := received_transactions s @ [?d]\<rparr>"
  have step: "batch_loop clk bid (t # ts) (c, s) = batch_loop clk bid ts (c + 1, ?s2)"
    by (rule batch_loop_Cons)
  show ?case
    unfolding step Cons.IH by (simp add: batch_id_dict)
qed

lemma batch_loop_payloads:
  "map payload (received_transactions (snd (batch_loop clk bid ts (c, s))))
     = map payload (received_transactions s) @ ts"
proof (induction ts arbitrary: c s)
  case Nil
  show ?case by simp
next
  case (Cons t ts)
  let ?d = "dict t (isoformat (clk (ticks s))) (len (received_transactions s) + 1) (Some bid)"
  let ?s2 = "s\<lparr>ticks := Suc (ticks s), received_transactions := received_transactions s @ [?d]\<rparr>"
  have step: "batch_loop clk bid (t # ts) (c, s) = batch_loop clk bid ts (c + 1, ?s2)"
    by (rule batch_loop_Cons)
  show ?case
    unfolding step Cons.IH by (simp add: payload_dict)
qed

lemma batch_loop_length:
  "length (received_transactions (snd (batch_loop clk bid ts (c, s))))
     = length (received_transactions s) + length ts"
  using arg_cong [OF batch_loop_payloads [of clk bid ts c s], of length] by simp

lemma receive_batch_transactions_eq:
  "receive_batch_transactions clk ts s =
     (let bid = strftime (clk (ticks s)) ''%Y%m%d_%H%M%S'';
          s2 = snd (batch_loop clk bid ts (0, s\<lparr>ticks := Suc (ticks s)\<rparr>))
      in (Inr \<lparr>batch_response.status = ''success'',
               batch_response.message =
                 ''Batch of '' @ str_int (len ts) @ '' transactions received successfully'',
               batch_response.batch_id = bid,
               batch_response.total_received = len (received_transactions s2)\<rparr>, s2))"
  unfolding receive_batch_transactions_def datetime_now_def Let_def split_beta fst_conv snd_conv
    batch_loop_count
  by simp

subsection \<open>The format of a batch id\<close>

lemma is_digit_digit_char: "k < 10 \<Longrightarrow> is_digit (digit_char k)"
  unfolding is_digit_def digit_char_def by (rule nth_mem) simp

lemma digits_dec: "list_all is_digit (dec n)"
proof (induction n rule: dec.induct)
  case (1 n)
  show ?case
  proof (cases "n < 10")
    case True
    then show ?thesis by (simp add: dec.simps [of n] is_digit_digit_char)
  next
    case False
    with "1" show ?thesis by (simp add: dec.simps [of n] is_digit_digit_char)
  qed
qed

lemma length_dec: "0 < w \<Longrightarrow> n < 10 ^ w \<Longrightarrow> length (dec n) \<le> w"
proof (induction n arbitrary: w rule: dec.induct)
  case (1 n)
  show ?case
  proof (cases "n < 10")
    case True
    with "1.prems" show ?thesis by (simp add: dec.simps [of n])
  next
    case False
    obtain v where w: "w = Suc v" using "1.prems"(1) by (cases w) auto
    have "0 < v"
    proof (rule ccontr)
      assume "\<not> 0 < v"
      with w "1.prems"(2) False show False by simp
    qed
    moreover have "n div 10 < 10 ^ v"
      using "1.prems"(2) w by (simp add: less_mult_imp_div_less mult.commute)
    ultimately have "length (dec (n div 10)) \<le> v"
      using "1.IH" [OF False] by blast
    with False w show ?thesis by (simp add: dec.simps [of n])
  qed
qed

lemma length_dec_pos: "0 < length (dec n)"
  by (cases "n < 10") (simp_all add: dec.simps [of n])

lemma length_zfill: "length s \<le> w \<Longrightarrow> length (zfill w s) = w"
  by (simp add: zfill_def)

lemma is_digit_zero: "is_digit CHR ''0''"
  by (simp add: is_digit_def)

lemma digits_zfill: "list_all is_digit s \<Longrightarrow> list_all is_digit (zfill w s)"
  by (auto simp add: zfill_def list_all_iff is_digit_zero)

lemma field_width: "0 < w \<Longrightarrow> n < 10 ^ w \<Longrightarrow> length (zfill w (dec n)) = w"
  by (rule length_zfill) (rule length_dec)

lemma field_digits: "list_all is_digit (zfill w (dec n))"
  by (rule digits_zfill) (rule digits_dec)

lemma batch_id_shape:
  assumes "length a = 4" "length b = 2" "length c = 2" "length e = 2" "length f = 2" "length g = 2"
    and "list_all is_digit a" "list_all is_digit b" "list_all is_digit c"
    and "list_all is_digit e" "list_all is_digit f" "list_all is_digit g"
  shows "is_batch_id_format (a @ b @ c @ ''_'' @ e @ f @ g)"
  using assms by (simp add: is_batch_id_format_def nth_append)

lemma strftime_batch_id:
  "strftime d ''%Y%m%d_%H%M%S'' =
     zfill 4 (dec (year d)) @ zfill 2 (dec (month d)) @ zfill 2 (dec (day d)) @ ''_''
     @ zfill 2 (dec (hour d)) @ zfill 2 (dec (minute d)) @ zfill 2 (dec (second d))"
  by (simp add: strftime.simps directive_def)

lemma batch_id_format: "clock_reading d \<Longrightarrow> is_batch_id_format (strftime d ''%Y%m%d_%H%M%S'')"
  unfolding strftime_batch_id clock_reading_def
  by (intro batch_id_shape field_digits field_width) simp_all

subsection \<open>The read handlers\<close>

lemma get_received_transactions_eq:
  "get_received_transactions clk s =
     (\<lparr>list_response.total_count = len (received_transactions s),
       list_response.last_10_transactions =
         (if received_transactions s \<noteq> [] then slice_from (received_transactions s) (- 10) else []),
       list_response.last_updated = isoformat (clk (ticks s)),
       list_response.poc_status = ''active''\<rparr>,
      s\<lparr>ticks := Suc (ticks s)\<rparr>)"
  by (simp add: get_received_transactions_def datetime_now_def Let_def)

lemma slice_last_10: "slice_from xs (- 10) = drop (length xs - 10) xs"
proof -
  have "nat (int (length xs) - 10) = length xs - 10" by simp
  then show ?thesis by (simp add: slice_from_def len_def)
qed

lemma getitem_first: "xs \<noteq> [] \<Longrightarrow> getitem xs 0 = Inr (hd xs)"
  by (simp add: getitem_def len_def hd_conv_nth)

lemma getitem_last: "xs \<noteq> [] \<Longrightarrow> getitem xs (- 1) = Inr (last xs)"
  by (cases xs rule: rev_cases) (simp_all add: getitem_def len_def)

lemma poc_statistics_nonempty:
  assumes "received_transactions s \<noteq> []"
  shows "poc_statistics s =
     (Inr (Statistics
        \<lparr>statistics_response.total_transactions = len (received_transactions s),
         statistics_response.unique_users = len (list_set (users_of (received_transactions s))),
         statistics_response.user_list = list_set (users_of (received_transactions s)),
         statistics_response.first_transaction =
           Some (transaction_dict.received_at (hd (received_transactions s))),
         statistics_response.last_transaction =
           Some (transaction_dict.received_at (last (received_transactions s))),
         statistics_response.poc_status = ''collecting_data''\<rparr>), s)"
  using assms
  by (simp add: poc_statistics_def guarded_received_at_def getitem_first getitem_last Let_def)

lemma set_users_of:
  "set (users_of ts) = {u. u \<noteq> [] \<and> Some u \<in> usrname ` set ts}"
proof -
  have "set (users_of ts) = {u. u \<noteq> [] \<and> (\<exists>t\<in>set ts. usrname t = Some u)}"
    by (induction ts) (auto simp add: users_of_def truthy_def split: option.splits)
  moreover have "(\<exists>t\<in>set ts. usrname t = Some u) \<longleftrightarrow> Some u \<in> usrname ` set ts" for u
    by force
  ultimately show ?thesis by simp
qed

subsection \<open>Rejected request bodies\<close>

lemma validate_rejects_authorizer:
  assumes "map_of (rev members) ''authorizer_usrnbr'' = Some v" and "v \<noteq> JNull"
    and "as_int v = None"
  shows "isl (validate as_int as_str (JObj members))"
  using assms by (simp add: validate_def optional_field_def errors_of_def Let_def)

section \<open>The claims\<close>

text \<open>
  Claim C1. A single ingest returns, and stores, the sequence id \<open>len(store) + 1\<close>, the
  store's count before the insert plus one. Calls made one after the other from an empty
  store all succeed, and the k-th of them returns and stores the sequence id k.
\<close>

theorem sequence_id_is_count_plus_one:
  "map_sum id ingest_response.poc_id (fst (receive_user_transaction clk t s))
     = Inr (len (received_transactions s) + 1)
   \<and> map transaction_dict.poc_id (received_transactions (snd (receive_user_transaction clk t s)))
     = map transaction_dict.poc_id (received_transactions s) @ [len (received_transactions s) + 1]
   \<and> map (map_sum id ingest_response.poc_id)
       (fst (ingest_all clk ts (s\<lparr>received_transactions := []\<rparr>)))
     = map (\<lambda>k. Inr (int k)) [1..<Suc (length ts)]
   \<and> map transaction_dict.poc_id
       (received_transactions (snd (ingest_all clk ts (s\<lparr>received_transactions := []\<rparr>))))
     = map int [1..<Suc (length ts)]"
proof (intro conjI)
  show "map_sum id ingest_response.poc_id (fst (receive_user_transaction clk t s))
          = Inr (len (received_transactions s) + 1)"
    by (simp add: receive_user_transaction_eq)
  show "map transaction_dict.poc_id (received_transactions (snd (receive_user_transaction clk t s)))
          = map transaction_dict.poc_id (received_transactions s) @ [len (received_transactions s) + 1]"
    by (simp add: receive_user_transaction_eq poc_id_dict)
  let ?e = "s\<lparr>received_transactions := []\<rparr>"
  have empty: "len (received_transactions ?e) = 0"
    by (simp add: len_def)
  show "map (map_sum id ingest_response.poc_id) (fst (ingest_all clk ts ?e))
          = map (\<lambda>k. Inr (int k)) [1..<Suc (length ts)]"
    unfolding ingest_all_responses empty
    using one_based [of "\<lambda>i. Inr i" "length ts"] by simp
  show "map transaction_dict.poc_id (received_transactions (snd (ingest_all clk ts ?e)))
          = map int [1..<Suc (length ts)]"
    unfolding ingest_all_poc_ids empty
    using one_based [of "\<lambda>i. i" "length ts"] by simp
qed

theorem sequence_id_is_count_plus_one_witness:
  "map (map_sum id ingest_response.poc_id)
     (fst (ingest_all example_clock [named (Some ''alice''), named None, named (Some ''bob'')]
        initial_state))
   = [Inr 1, Inr 2, Inr 3]"
proof -
  have "initial_state\<lparr>received_transactions := []\<rparr> = initial_state"
    by (simp add: initial_state_def)
  with sequence_id_is_count_plus_one
         [of example_clock _ initial_state "[named (Some ''alice''), named None, named (Some ''bob'')]"]
  show ?thesis by (simp add: upt_rec)
qed

text \<open>
  Claim C2, as stated, fails: \<open>total_received\<close> of the batch response is the length of the
  whole store. With one record already stored, a batch of one record reports 2.
\<close>

theorem batch_total_received_counterexample:
  "map_sum id batch_response.total_received
     (fst (receive_batch_transactions example_clock [named (Some ''bob'')] one_stored)) = Inr 2
   \<and> len [named (Some ''bob'')] = 1"
  by (simp add: receive_batch_transactions_eq one_stored_def receive_user_transaction_eq
        initial_state_def datetime_now_def len_def Let_def)

text \<open>
  Claim C2, amended. Every batch ingest call succeeds, and the \<open>total_received\<close> of its
  response is the store's count after the call: the count before the call plus the
  number of records in the request. The number of records in the request is what the
  response's message text reports, and \<open>total_received\<close> equals it when the store was
  empty before the call.
\<close>

theorem batch_total_received_is_store_count:
  "map_sum id batch_response.total_received (fst (receive_batch_transactions clk ts s))
     = Inr (len (received_transactions s) + len ts)
   \<and> len (received_transactions (snd (receive_batch_transactions clk ts s)))
     = len (received_transactions s) + len ts
   \<and> map_sum id batch_response.message (fst (receive_batch_transactions clk ts s))
     = Inr (''Batch of '' @ str_int (len ts) @ '' transactions received successfully'')
   \<and> map_sum id batch_response.total_received
       (fst (receive_batch_transactions clk ts (s\<lparr>received_transactions := []\<rparr>)))
     = Inr (len ts)"
  by (simp add: receive_batch_transactions_eq Let_def len_def batch_loop_length)

theorem batch_total_received_is_store_count_witness:
  "map_sum id batch_response.total_received
     (fst (receive_batch_transactions example_clock [named (Some ''bob''), named None] one_stored))
   = Inr 3"
  using batch_total_received_is_store_count
          [of example_clock "[named (Some ''bob''), named None]" one_stored]
  by (simp add: one_stored_def receive_user_transaction_eq initial_state_def len_def)

text \<open>
  Claim C3. A batch ingest call reads the clock once for its batch id. The records that
  were in the store stay in place, the call appends one record per request record, every
  appended record carries that one batch id, and the response returns the same string.
  For a clock reading with a four-digit year the string has the shape \<open>YYYYMMDD_HHMMSS\<close>.
\<close>

theorem batch_records_share_batch_id:
  assumes "clock_reading (clk (ticks s))"
  shows "(let bid = strftime (clk (ticks s)) ''%Y%m%d_%H%M%S'';
              after = received_transactions (snd (receive_batch_transactions clk ts s))
          in map_sum id batch_response.batch_id (fst (receive_batch_transactions clk ts s)) = Inr bid
             \<and> take (length (received_transactions s)) after = received_transactions s
             \<and> map transaction_dict.batch_id (drop (length (received_transactions s)) after)
                 = replicate (length ts) (Some bid)
             \<and> is_batch_id_format bid)"
proof -
  let ?bid = "strftime (clk (ticks s)) ''%Y%m%d_%H%M%S''"
  let ?s1 = "s\<lparr>ticks := Suc (ticks s)\<rparr>"
  let ?after = "received_transactions (snd (batch_loop clk ?bid ts (0, ?s1)))"
  have after: "received_transactions (snd (receive_batch_transactions clk ts s)) = ?after"
    by (simp add: receive_batch_transactions_eq Let_def)
  have "prefix (received_transactions ?s1) ?after"
    by (rule batch_loop_prefix)
  then obtain new where new: "?after = received_transactions s @ new"
    by (auto simp add: prefix_def)
  have "map transaction_dict.batch_id ?after
          = map transaction_dict.batch_id (received_transactions ?s1) @ replicate (length ts) (Some ?bid)"
    by (rule batch_loop_batch_ids)
  then have ids: "map transaction_dict.batch_id new = replicate (length ts) (Some ?bid)"
    by (simp add: new)
  have "map_sum id batch_response.batch_id (fst (receive_batch_transactions clk ts s)) = Inr ?bid"
    by (simp add: receive_batch_transactions_eq Let_def)
  moreover have "take (length (received_transactions s)) ?after = received_transactions s"
    by (simp add: new)
  moreover have "map transaction_dict.batch_id (drop (length (received_transactions s)) ?after)
                   = replicate (length ts) (Some ?bid)"
    by (simp add: new ids)
  moreover have "is_batch_id_format ?bid"
    using assms by (rule batch_id_format)
  ultimately show ?thesis
    unfolding Let_def after by blast
qed

theorem batch_records_share_batch_id_witness:
  "clock_reading (example_clock (ticks one_stored))
   \<and> map_sum id batch_response.batch_id
       (fst (receive_batch_transactions example_clock [named (Some ''bob''), named None] one_stored))
     = Inr ''20261104_120001''
   \<and> map transaction_dict.batch_id
       (received_transactions
          (snd (receive_batch_transactions example_clock [named (Some ''bob''), named None] one_stored)))
     = [None, Some ''20261104_120001'', Some ''20261104_120001'']
   \<and> is_batch_id_format ''20261104_120001''"
proof -
  have t: "ticks one_stored = 1" and n: "length (received_transactions one_stored) = 1"
    by (simp_all add: one_stored_def receive_user_transaction_eq initial_state_def)
  have h: "clock_reading (example_clock (ticks one_stored))"
    by (simp add: t clock_reading_def example_clock_def)
  have bid: "strftime (example_clock (ticks one_stored)) ''%Y%m%d_%H%M%S'' = ''20261104_120001''"
    unfolding t by code_simp
  have first: "map transaction_dict.batch_id (received_transactions one_stored) = [None]"
    by (simp add: one_stored_def receive_user_transaction_eq initial_state_def batch_id_dict)
  let ?after = "received_transactions
          (snd (receive_batch_transactions example_clock [named (Some ''bob''), named None] one_stored))"
  from batch_records_share_batch_id
         [of example_clock one_stored "[named (Some ''bob''), named None]", OF h]
  have r: "map_sum id batch_response.batch_id
             (fst (receive_batch_transactions example_clock [named (Some ''bob''), named None] one_stored))
           = Inr ''20261104_120001''"
    and p: "take 1 ?after = received_transactions one_stored"
    and d: "map transaction_dict.batch_id (drop 1 ?after)
              = [Some ''20261104_120001'', Some ''20261104_120001'']"
    and f: "is_batch_id_format ''20261104_120001''"
    unfolding Let_def bid n by simp_all
  have "map transaction_dict.batch_id ?after
          = map transaction_dict.batch_id (take 1 ?after) @ map transaction_dict.batch_id (drop 1 ?after)"
    by (simp only: map_append [symmetric] append_take_drop_id)
  then have "map transaction_dict.batch_id ?after
               = [None, Some ''20261104_120001'', Some ''20261104_120001'']"
    unfolding p d first by simp
  with h r f show ?thesis by blast
qed

text \<open>
  Claim C4. The list-recent handler reports the length of the store as \<open>total_count\<close>, and
  its \<open>last_10_transactions\<close> has \<open>min(total_count, 10)\<close> elements and is the end of the
  store, in the store's order: the store without its first \<open>len - 10\<close> records. For the
  empty store it is the empty list.
\<close>

theorem list_recent_is_last_ten:
  "list_response.total_count (fst (get_received_transactions clk s)) = len (received_transactions s)
   \<and> len (list_response.last_10_transactions (fst (get_received_transactions clk s)))
     = min (len (received_transactions s)) 10
   \<and> suffix (list_response.last_10_transactions (fst (get_received_transactions clk s)))
       (received_transactions s)
   \<and> list_response.last_10_transactions (fst (get_received_transactions clk s))
     = drop (length (received_transactions s) - 10) (received_transactions s)
   \<and> list_response.last_10_transactions
       (fst (get_received_transactions clk (s\<lparr>received_transactions := []\<rparr>))) = []"
proof -
  let ?xs = "received_transactions s"
  have recent: "list_response.last_10_transactions (fst (get_received_transactions clk s))
                  = drop (length ?xs - 10) ?xs"
    by (simp add: get_received_transactions_eq slice_last_10)
  have "list_response.total_count (fst (get_received_transactions clk s)) = len ?xs"
    by (simp add: get_received_transactions_eq)
  moreover have "len (drop (length ?xs - 10) ?xs) = min (len ?xs) 10"
    by (simp add: len_def min_def)
  moreover have "suffix (drop (length ?xs - 10) ?xs) ?xs"
    by (rule suffix_drop)
  moreover have "list_response.last_10_transactions
       (fst (get_received_transactions clk (s\<lparr>received_transactions := []\<rparr>))) = []"
    by (simp add: get_received_transactions_eq)
  ultimately show ?thesis
    unfolding recent by blast
qed

theorem list_recent_is_last_ten_witness:
  "list_response.total_count (fst (get_received_transactions example_clock twelve_stored)) = 12
   \<and> len (list_response.last_10_transactions
            (fst (get_received_transactions example_clock twelve_stored))) = 10"
proof -
  have "length (received_transactions twelve_stored) = 12"
    by (simp add: twelve_stored_def ingest_all_length initial_state_def)
  then have n: "len (received_transactions twelve_stored) = 12"
    by (simp add: len_def)
  from list_recent_is_last_ten [of example_clock twelve_stored]
  have "list_response.total_count (fst (get_received_transactions example_clock twelve_stored))
          = len (received_transactions twelve_stored)"
    and "len (list_response.last_10_transactions
              (fst (get_received_transactions example_clock twelve_stored)))
          = min (len (received_transactions twelve_stored)) 10"
    by blast+
  then show ?thesis
    unfolding n by simp
qed

text \<open>
  Claim C5. A single ingest appends exactly one record, the one of the request, at the
  end of the store and leaves every earlier record as it was. Every call of a sequence of
  single ingests succeeds, the store it started from remains a prefix of the store, and
  after N calls from the empty store the store holds N records, carrying the N requests
  in the order of the calls.
\<close>

theorem single_ingest_appends_in_call_order:
  "butlast (received_transactions (snd (receive_user_transaction clk t s))) = received_transactions s
   \<and> payload (last (received_transactions (snd (receive_user_transaction clk t s)))) = t
   \<and> map isl (fst (ingest_all clk ts s)) = replicate (length ts) False
   \<and> prefix (received_transactions s) (received_transactions (snd (ingest_all clk ts s)))
   \<and> len (received_transactions (snd (ingest_all clk ts (s\<lparr>received_transactions := []\<rparr>))))
     = len ts
   \<and> map payload (received_transactions (snd (ingest_all clk ts (s\<lparr>received_transactions := []\<rparr>))))
     = ts"
proof (intro conjI)
  show "butlast (received_transactions (snd (receive_user_transaction clk t s)))
          = received_transactions s"
    by (simp add: receive_user_transaction_eq)
  show "payload (last (received_transactions (snd (receive_user_transaction clk t s)))) = t"
    by (simp add: receive_user_transaction_eq payload_dict)
  show "map isl (fst (ingest_all clk ts s)) = replicate (length ts) False"
    by (rule ingest_all_success)
  show "prefix (received_transactions s) (received_transactions (snd (ingest_all clk ts s)))"
    by (rule ingest_all_prefix)
  show "len (received_transactions (snd (ingest_all clk ts (s\<lparr>received_transactions := []\<rparr>))))
          = len ts"
    by (simp add: len_def ingest_all_length)
  show "map payload (received_transactions (snd (ingest_all clk ts (s\<lparr>received_transactions := []\<rparr>))))
          = ts"
    by (simp add: ingest_all_store)
qed

theorem single_ingest_appends_in_call_order_witness:
  "map usrname
     (received_transactions
        (snd (ingest_all example_clock [named (Some ''alice''), named None, named (Some ''bob'')]
           initial_state)))
   = [Some ''alice'', None, Some ''bob'']"
proof -
  have e: "initial_state\<lparr>received_transactions := []\<rparr> = initial_state"
    by (simp add: initial_state_def)
  have u: "map usrname xs = map usrname (map payload xs)" for xs :: "transaction_dict list"
    by (simp add: payload_def)
  from single_ingest_appends_in_call_order
         [of example_clock _ initial_state "[named (Some ''alice''), named None, named (Some ''bob'')]"]
  have "map payload
          (received_transactions
            (snd (ingest_all example_clock [named (Some ''alice''), named None, named (Some ''bob'')]
               initial_state)))
        = [named (Some ''alice''), named None, named (Some ''bob'')]"
    unfolding e by blast
  then show ?thesis
    by (subst u) (simp add: named_def)
qed

text \<open>
  Claim C6. When the request body fails validation against \<open>UserTransaction\<close>, the single
  ingest endpoint answers with the validation error (status 422) and the state of the
  process, the store included, is exactly what it was. A body whose \<open>authorizer_usrnbr\<close>
  is a value, other than \<open>null\<close>, that cannot be coerced to an integer is such a body.
\<close>

theorem validation_failure_leaves_store:
  "(validate as_int as_str body = Inl errors \<longrightarrow>
      post_user_transaction as_int as_str clk body s = (Inl (RequestValidationError errors), s)
      \<and> status_code (RequestValidationError errors) = 422)
   \<and> (map_of (rev members) ''authorizer_usrnbr'' = Some v \<and> v \<noteq> JNull \<and> as_int v = None \<longrightarrow>
        (\<exists>errs. post_user_transaction as_int as_str clk (JObj members) s
                  = (Inl (RequestValidationError errs), s)))"
proof (intro conjI impI)
  assume "validate as_int as_str body = Inl errors"
  then show "post_user_transaction as_int as_str clk body s
               = (Inl (RequestValidationError errors), s)"
    by (simp add: post_user_transaction_def)
next
  show "status_code (RequestValidationError errors) = 422"
    by simp
next
  assume "map_of (rev members) ''authorizer_usrnbr'' = Some v \<and> v \<noteq> JNull \<and> as_int v = None"
  then have "isl (validate as_int as_str (JObj members))"
    by (blast intro: validate_rejects_authorizer)
  then obtain errs where "validate as_int as_str (JObj members) = Inl errs"
    by (cases "validate as_int as_str (JObj members)") simp_all
  then have "post_user_transaction as_int as_str clk (JObj members) s
               = (Inl (RequestValidationError errs), s)"
    by (simp add: post_user_transaction_def)
  then show "\<exists>errs. post_user_transaction as_int as_str clk (JObj members) s
                      = (Inl (RequestValidationError errs), s)"
    by blast
qed

theorem validation_failure_leaves_store_witness:
  "validate strict_int strict_str (JObj [(''authorizer_usrnbr'', JStr ''abc'')])
     = Inl [''authorizer_usrnbr'']
   \<and> map_of (rev [(''authorizer_usrnbr'', JStr ''abc'')]) ''authorizer_usrnbr'' = Some (JStr ''abc'')
   \<and> JStr ''abc'' \<noteq> JNull \<and> strict_int (JStr ''abc'') = None
   \<and> post_user_transaction strict_int strict_str example_clock
       (JObj [(''authorizer_usrnbr'', JStr ''abc'')]) one_stored
     = (Inl (RequestValidationError [''authorizer_usrnbr'']), one_stored)"
proof -
  have h: "validate strict_int strict_str (JObj [(''authorizer_usrnbr'', JStr ''abc'')])
             = Inl [''authorizer_usrnbr'']"
    by (simp add: validate_def optional_field_def errors_of_def strict_int_def)
  have m: "map_of (rev [(''authorizer_usrnbr'', JStr ''abc'')]) ''authorizer_usrnbr''
             = Some (JStr ''abc'')"
    and n: "JStr ''abc'' \<noteq> JNull" and c: "strict_int (JStr ''abc'') = None"
    by (simp_all add: strict_int_def)
  from validation_failure_leaves_store
         [of strict_int strict_str "JObj [(''authorizer_usrnbr'', JStr ''abc'')]"
            "[''authorizer_usrnbr'']" example_clock one_stored]
       h
  have "post_user_transaction strict_int strict_str example_clock
          (JObj [(''authorizer_usrnbr'', JStr ''abc'')]) one_stored
        = (Inl (RequestValidationError [''authorizer_usrnbr'']), one_stored)"
    by blast
  with h m n c show ?thesis by blast
qed

text \<open>
  Claim C7. On a non-empty store the statistics handler returns the statistics shape, whose
  \<open>unique_users\<close> is the number of distinct non-empty usernames among the stored records
  and whose \<open>user_list\<close> lists exactly those usernames, each once.
\<close>

theorem statistics_distinct_users:
  assumes "received_transactions s \<noteq> []"
  shows "\<exists>r. fst (poc_statistics s) = Inr (Statistics r)
           \<and> statistics_response.unique_users r
             = int (card {u. u \<noteq> [] \<and> Some u \<in> usrname ` set (received_transactions s)})
           \<and> set (statistics_response.user_list r)
             = {u. u \<noteq> [] \<and> Some u \<in> usrname ` set (received_transactions s)}
           \<and> distinct (statistics_response.user_list r)"
proof -
  let ?us = "list_set (users_of (received_transactions s))"
  have s: "set ?us = {u. u \<noteq> [] \<and> Some u \<in> usrname ` set (received_transactions s)}"
    by (simp add: list_set_def set_users_of)
  have d: "distinct ?us"
    by (simp add: list_set_def)
  have "len ?us = int (card (set ?us))"
    using d by (simp add: len_def distinct_card)
  with s d show ?thesis
    by (simp add: poc_statistics_nonempty [OF assms])
qed

theorem statistics_distinct_users_witness:
  "received_transactions five_users \<noteq> []
   \<and> map usrname (received_transactions five_users)
     = [Some ''a'', Some ''b'', Some ''a'', None, Some ''b'']
   \<and> (\<exists>r. fst (poc_statistics five_users) = Inr (Statistics r)
          \<and> statistics_response.unique_users r = 2
          \<and> set (statistics_response.user_list r) = {''a'', ''b''})"
proof -
  have names: "map usrname (received_transactions five_users)
                 = [Some ''a'', Some ''b'', Some ''a'', None, Some ''b'']"
    by (simp add: five_users_def receive_user_transaction_eq initial_state_def dict_def named_def)
  then have ne: "received_transactions five_users \<noteq> []"
    by auto
  have "usrname ` set (received_transactions five_users)
          = set (map usrname (received_transactions five_users))"
    by simp
  then have "{u. u \<noteq> [] \<and> Some u \<in> usrname ` set (received_transactions five_users)}
               = {''a'', ''b''}"
    unfolding names by auto
  with statistics_distinct_users [OF ne] names ne show ?thesis
    by auto
qed

text \<open>
  Claim C8. On an empty store the statistics handler returns the waiting-for-data shape with
  \<open>total_count\<close> 0, and not the statistics shape.
\<close>

theorem statistics_waiting_on_empty_store:
  assumes "received_transactions s = []"
  shows "poc_statistics s =
           (Inr (Waiting \<lparr>waiting_response.message = ''No transactions received yet'',
                          waiting_response.total_count = 0,
                          waiting_response.status = ''waiting_for_data''\<rparr>), s)
         \<and> (\<forall>r. fst (poc_statistics s) \<noteq> Inr (Statistics r))"
  using assms by (simp add: poc_statistics_def)

theorem statistics_waiting_on_empty_store_witness:
  "received_transactions initial_state = []
   \<and> poc_statistics initial_state =
       (Inr (Waiting \<lparr>waiting_response.message = ''No transactions received yet'',
                      waiting_response.total_count = 0,
                      waiting_response.status = ''waiting_for_data''\<rparr>), initial_state)"
proof -
  have h: "received_transactions initial_state = []"
    by (simp add: initial_state_def)
  from statistics_waiting_on_empty_store [OF h] h show ?thesis by blast
qed

text \<open>
  Claim C9. On a non-empty store the statistics handler reports as \<open>first_transaction\<close> the
  \<open>received_at\<close> of the first record of the store and as \<open>last_transaction\<close> the
  \<open>received_at\<close> of the last one.
\<close>

theorem statistics_first_and_last:
  assumes "received_transactions s \<noteq> []"
  shows "\<exists>r. fst (poc_statistics s) = Inr (Statistics r)
           \<and> statistics_response.first_transaction r
             = Some (transaction_dict.received_at (hd (received_transactions s)))
           \<and> statistics_response.last_transaction r
             = Some (transaction_dict.received_at (last (received_transactions s)))"
  by (simp add: poc_statistics_nonempty [OF assms])

theorem statistics_first_and_last_witness:
  "received_transactions five_users \<noteq> []
   \<and> (\<exists>r. fst (poc_statistics five_users) = Inr (Statistics r)
          \<and> statistics_response.first_transaction r = Some ''2026-11-04T12:00:00''
          \<and> statistics_response.last_transaction r = Some ''2026-11-04T12:00:04'')"
proof -
  have ne: "received_transactions five_users \<noteq> []"
    by (simp add: five_users_def receive_user_transaction_eq initial_state_def)
  have iso: "isoformat (example_clock 0) = ''2026-11-04T12:00:00''"
            "isoformat (example_clock 4) = ''2026-11-04T12:00:04''"
    by code_simp+
  have "transaction_dict.received_at (hd (received_transactions five_users))
          = isoformat (example_clock 0)"
    by (simp add: five_users_def receive_user_transaction_eq initial_state_def dict_def)
  then have first: "transaction_dict.received_at (hd (received_transactions five_users))
          = ''2026-11-04T12:00:00''"
    by (simp only: iso)
  have "transaction_dict.received_at (last (received_transactions five_users))
          = isoformat (example_clock 4)"
    by (simp add: five_users_def receive_user_transaction_eq initial_state_def dict_def
          eval_nat_numeral)
  then have last: "transaction_dict.received_at (last (received_transactions five_users))
          = ''2026-11-04T12:00:04''"
    by (simp only: iso)
  from statistics_first_and_last [OF ne] ne show ?thesis
    unfolding first last by blast
qed

text \<open>
  Claim C10. The handlers of root, list recent, health check and statistics leave the
  store as it was.
\<close>

theorem read_only_handlers_keep_store:
  "received_transactions (snd (root clk s)) = received_transactions s
   \<and> received_transactions (snd (get_received_transactions clk s)) = received_transactions s
   \<and> received_transactions (snd (health_check clk s)) = received_transactions s
   \<and> received_transactions (snd (poc_statistics s)) = received_transactions s"
proof (intro conjI)
  show "received_transactions (snd (root clk s)) = received_transactions s"
    by (simp add: root_def datetime_now_def)
  show "received_transactions (snd (get_received_transactions clk s)) = received_transactions s"
    by (simp add: get_received_transactions_eq)
  show "received_transactions (snd (health_check clk s)) = received_transactions s"
    by (simp add: health_check_def datetime_now_def)
  show "received_transactions (snd (poc_statistics s)) = received_transactions s"
    by (simp add: poc_statistics_def Let_def split: sum.split)
qed

theorem read_only_handlers_keep_store_witness:
  "received_transactions (snd (root example_clock one_stored)) = received_transactions one_stored
   \<and> received_transactions (snd (poc_statistics one_stored)) = received_transactions one_stored"
  using read_only_handlers_keep_store [of example_clock one_stored] by blast

end
